theory Spec2Isabelle
  imports Complex_Main "HOL-Library.AList"
begin

section \<open>Numbers, cells and frames\<close>

text \<open>
  The dashboard script \<^verbatim>\<open>app.py\<close> works on a pandas DataFrame. A numeric column is
  of dtype float64 or int64. A float64 is modelled by its exact value: a finite real, one
  of the two infinities, or NaN, which is also how pandas stores a missing number.
  Rounding and overflow of floats and the sign of zero are not modelled. The arithmetic
  and the comparisons follow IEEE 754 on these four kinds of value: NaN is contagious in
  arithmetic and makes every comparison false. An int64 is an integer; sums and products
  of int64 values wrap around modulo \<open>2 ^ 64\<close>, silently, as numpy's do.
\<close>

datatype fl = Fin real | PInf | NInf | NaN

fun fadd :: "fl \<Rightarrow> fl \<Rightarrow> fl" where
  "fadd NaN y = NaN"
| "fadd x NaN = NaN"
| "fadd (Fin a) (Fin b) = Fin (a + b)"
| "fadd PInf NInf = NaN"
| "fadd NInf PInf = NaN"
| "fadd PInf y = PInf"
| "fadd x PInf = PInf"
| "fadd NInf y = NInf"
| "fadd x NInf = NInf"

fun fmul :: "fl \<Rightarrow> fl \<Rightarrow> fl" where
  "fmul NaN y = NaN"
| "fmul x NaN = NaN"
| "fmul (Fin a) (Fin b) = Fin (a * b)"
| "fmul (Fin a) PInf = (if a = 0 then NaN else if 0 < a then PInf else NInf)"
| "fmul (Fin a) NInf = (if a = 0 then NaN else if 0 < a then NInf else PInf)"
| "fmul PInf (Fin b) = (if b = 0 then NaN else if 0 < b then PInf else NInf)"
| "fmul NInf (Fin b) = (if b = 0 then NaN else if 0 < b then NInf else PInf)"
| "fmul PInf PInf = PInf"
| "fmul PInf NInf = NInf"
| "fmul NInf PInf = NInf"
| "fmul NInf NInf = PInf"

text \<open>Division by zero raises nothing in pandas: it gives an infinity, or NaN for 0/0.\<close>

fun fdiv :: "fl \<Rightarrow> fl \<Rightarrow> fl" where
  "fdiv NaN y = NaN"
| "fdiv x NaN = NaN"
| "fdiv (Fin a) (Fin b) =
     (if b = 0 then (if a = 0 then NaN else if 0 < a then PInf else NInf) else Fin (a / b))"
| "fdiv (Fin a) PInf = Fin 0"
| "fdiv (Fin a) NInf = Fin 0"
| "fdiv PInf (Fin b) = (if 0 \<le> b then PInf else NInf)"
| "fdiv NInf (Fin b) = (if 0 \<le> b then NInf else PInf)"
| "fdiv PInf PInf = NaN"
| "fdiv PInf NInf = NaN"
| "fdiv NInf PInf = NaN"
| "fdiv NInf NInf = NaN"

fun flt :: "fl \<Rightarrow> fl \<Rightarrow> bool" where
  "flt NaN y = False"
| "flt x NaN = False"
| "flt (Fin a) (Fin b) = (a < b)"
| "flt x NInf = False"
| "flt PInf y = False"
| "flt NInf y = True"
| "flt x PInf = True"

fun fle :: "fl \<Rightarrow> fl \<Rightarrow> bool" where
  "fle NaN y = False"
| "fle x NaN = False"
| "fle (Fin a) (Fin b) = (a \<le> b)"
| "fle NInf y = True"
| "fle x PInf = True"
| "fle PInf y = False"
| "fle x NInf = False"

definition fgt :: "fl \<Rightarrow> fl \<Rightarrow> bool" where
  "fgt x y = flt y x"

definition wrap64 :: "int \<Rightarrow> int" where
  "wrap64 i = (i + 2 ^ 63) mod 2 ^ 64 - 2 ^ 63"

text \<open>
  A cell of an object column holds a string; a cell of a numeric column holds an int64 or
  a float64, and a missing cell of any column holds NaN. A column is of dtype int64 when
  all its cells are integers; a numeric column with any other cell is a float64 column,
  whose integers are read as floats. A frame is the list of its named columns, in
  column order; \<^verbatim>\<open>df[c]\<close> reads the first column named \<open>c\<close> and
  \<^verbatim>\<open>df[c] = v\<close> replaces it, or appends it when there is none.
\<close>

datatype cell = Str string | I64 int | Num fl

type_synonym series = "cell list"
type_synonym frame = "(string \<times> series) list"

datatype exn =
    ReadError string
  | AttributeError
  | LengthMismatch nat nat
  | KeyError string

fun num_of :: "cell \<Rightarrow> fl" where
  "num_of (Num v) = v"
| "num_of (I64 i) = Fin (of_int i)"
| "num_of (Str s) = NaN"

fun is_num :: "cell \<Rightarrow> bool" where
  "is_num (Num v) = True"
| "is_num (I64 i) = True"
| "is_num (Str s) = False"

fun is_int :: "cell \<Rightarrow> bool" where
  "is_int (I64 i) = True"
| "is_int (Num v) = False"
| "is_int (Str s) = False"

fun int_of :: "cell \<Rightarrow> int" where
  "int_of (I64 i) = i"
| "int_of (Num v) = 0"
| "int_of (Str s) = 0"

definition int64 :: "series \<Rightarrow> bool" where
  "int64 col = list_all is_int col"

text \<open>
  The views read a column as numbers. They run after the coercion loop, where each of the
  eight numeric columns exists and holds numbers only, so the two fallbacks below (no such
  column, a string cell) are never reached from the pipeline.
\<close>

definition nums :: "frame \<Rightarrow> string \<Rightarrow> fl list" where
  "nums df c = (case map_of df c of None \<Rightarrow> [] | Some col \<Rightarrow> map num_of col)"

definition column :: "frame \<Rightarrow> string \<Rightarrow> series" where
  "column df c = (case map_of df c of None \<Rightarrow> [] | Some col \<Rightarrow> col)"

definition set_col :: "string \<Rightarrow> series \<Rightarrow> frame \<Rightarrow> frame" where
  "set_col c col df = AList.update c col df"

definition set_nums :: "string \<Rightarrow> fl list \<Rightarrow> frame \<Rightarrow> frame" where
  "set_nums c vs df = set_col c (map Num vs) df"

definition nrows :: "frame \<Rightarrow> nat" where
  "nrows df = (case df of [] \<Rightarrow> 0 | (c, col) # rest \<Rightarrow> length col)"

definition rect :: "frame \<Rightarrow> bool" where
  "rect df = list_all (\<lambda>(c, col). length col = nrows df) df"

text \<open>Boolean indexing \<^verbatim>\<open>df[mask]\<close> keeps, in every column, the cells whose mask is true.\<close>

definition pick :: "bool list \<Rightarrow> 'a list \<Rightarrow> 'a list" where
  "pick bs xs = map snd (filter fst (zip bs xs))"

definition select :: "bool list \<Rightarrow> frame \<Rightarrow> frame" where
  "select bs df = map (\<lambda>(c, col). (c, pick bs col)) df"

text \<open>The row labels that a mask keeps: pandas labels the rows of a loaded table 0, 1, 2, ...\<close>

definition kept :: "bool list \<Rightarrow> nat list" where
  "kept bs = pick bs [0..<length bs]"

section \<open>Type coercion\<close>

text \<open>
  \<^verbatim>\<open>pd.to_numeric(col, errors="coerce")\<close>: a number stays as it is, a string is parsed,
  and a string that does not parse becomes NaN. The parser of number literals belongs to
  pandas and is a parameter here; it gives an integer (taken to be in the range of int64)
  or a float.
\<close>

type_synonym parser = "string \<Rightarrow> (int + fl) option"

fun coerce :: "parser \<Rightarrow> cell \<Rightarrow> cell" where
  "coerce p (Num v) = Num v"
| "coerce p (I64 i) = I64 i"
| "coerce p (Str s) =
     (case p s of None \<Rightarrow> Num NaN | Some (Inl i) \<Rightarrow> I64 i | Some (Inr v) \<Rightarrow> Num v)"

definition to_numeric :: "parser \<Rightarrow> series \<Rightarrow> series" where
  "to_numeric p col = map (coerce p) col"

definition numeric_cols :: "string list" where
  "numeric_cols = [''InvocationsPerMonth'', ''AvgDurationMs'', ''MemoryMB'', ''ColdStartRate'',
                   ''ProvisionedConcurrency'', ''GBSeconds'', ''DataTransferGB'', ''CostUSD'']"

text \<open>The loop over the eight names; reading a column the table lacks raises KeyError.\<close>

fun coerce_cols :: "parser \<Rightarrow> string list \<Rightarrow> frame \<Rightarrow> exn + frame" where
  "coerce_cols p [] df = Inr df"
| "coerce_cols p (c # cs) df =
     (case map_of df c of
        None \<Rightarrow> Inl (KeyError c)
      | Some col \<Rightarrow> coerce_cols p cs (set_col c (to_numeric p col) df))"

section \<open>Column reductions and sorting\<close>

text \<open>
  \<^verbatim>\<open>Series.sum()\<close> and \<^verbatim>\<open>Series.mean()\<close> skip NaN; the sum of nothing is 0 and the
  mean of nothing is 0/0. \<^verbatim>\<open>Series.cumsum()\<close> skips NaN as well: a NaN cell stays NaN
  and adds nothing to the running sum.
\<close>

fun fsum :: "fl list \<Rightarrow> fl" where
  "fsum [] = Fin 0"
| "fsum (x # xs) = (if x = NaN then fsum xs else fadd x (fsum xs))"

text \<open>The sum of an int64 column is an int64: it wraps around.\<close>

definition ssum :: "series \<Rightarrow> fl" where
  "ssum col =
     (if int64 col then Fin (of_int (wrap64 (sum_list (map int_of col))))
      else fsum (map num_of col))"

definition fmean :: "fl list \<Rightarrow> fl" where
  "fmean xs = (let ys = filter (\<lambda>x. x \<noteq> NaN) xs in fdiv (fsum ys) (Fin (real (length ys))))"

fun cumsum_from :: "fl \<Rightarrow> fl list \<Rightarrow> fl list" where
  "cumsum_from acc [] = []"
| "cumsum_from acc (x # xs) =
     (if x = NaN then NaN # cumsum_from acc xs
      else fadd acc x # cumsum_from (fadd acc x) xs)"

definition cumsum :: "fl list \<Rightarrow> fl list" where
  "cumsum xs = cumsum_from (Fin 0) xs"

text \<open>
  \<^verbatim>\<open>df.sort_values(c, ascending=False)\<close>: larger keys first, NaN keys last. Rows with
  equal keys are kept in their original order here; pandas' default sort leaves that order
  open. The sort is an insertion sort of the keys paired with their row labels.
\<close>

definition goes_before :: "fl \<Rightarrow> fl \<Rightarrow> bool" where
  "goes_before x y = (if x = NaN then False else if y = NaN then True else flt y x)"

fun insort_desc :: "fl \<times> nat \<Rightarrow> (fl \<times> nat) list \<Rightarrow> (fl \<times> nat) list" where
  "insort_desc x [] = [x]"
| "insort_desc x (y # ys) =
     (if goes_before (fst y) (fst x) then y # insort_desc x ys else x # y # ys)"

definition argsort_desc :: "fl list \<Rightarrow> nat list" where
  "argsort_desc ks = map snd (foldr insort_desc (zip ks [0..<length ks]) [])"

definition take_rows :: "nat list \<Rightarrow> frame \<Rightarrow> frame" where
  "take_rows idx df = map (\<lambda>(c, col). (c, map (\<lambda>i. col ! i) idx)) df"

definition sort_values_desc :: "string \<Rightarrow> frame \<Rightarrow> frame" where
  "sort_values_desc c df = take_rows (argsort_desc (nums df c)) df"

section \<open>The six views\<close>

subsection \<open>Exercise 1: top cost contributors\<close>

definition total_cost :: "frame \<Rightarrow> fl" where
  "total_cost df = ssum (column df ''CostUSD'')"

definition df_sorted :: "frame \<Rightarrow> frame" where
  "df_sorted df =
     (let s0 = sort_values_desc ''CostUSD'' df;
          s1 = set_nums ''CostPercent''
                 (map (\<lambda>c. fmul (fdiv c (total_cost df)) (Fin 100)) (nums s0 ''CostUSD'')) s0
      in set_nums ''CumulativeCost'' (cumsum (nums s1 ''CostPercent'')) s1)"

definition top_80_mask :: "frame \<Rightarrow> bool list" where
  "top_80_mask df = map (\<lambda>c. fle c (Fin 80)) (nums (df_sorted df) ''CumulativeCost'')"

definition top_80 :: "frame \<Rightarrow> frame" where
  "top_80 df = select (top_80_mask df) (df_sorted df)"

text \<open>The labels of the rows of \<^verbatim>\<open>top_80\<close>, in the order of the sorted table.\<close>

definition top_80_rows :: "frame \<Rightarrow> nat list" where
  "top_80_rows df = pick (top_80_mask df) (argsort_desc (nums df ''CostUSD''))"

subsection \<open>Exercise 2: memory right-sizing\<close>

definition right_sizing_mask :: "frame \<Rightarrow> bool list" where
  "right_sizing_mask df =
     map2 (\<and>) (map (\<lambda>d. flt d (Fin 600)) (nums df ''AvgDurationMs''))
              (map (\<lambda>m. fgt m (Fin 1024)) (nums df ''MemoryMB''))"

definition right_sizing :: "frame \<Rightarrow> frame" where
  "right_sizing df =
     (let r = select (right_sizing_mask df) df
      in set_nums ''EstimatedSavings'' (map (\<lambda>c. fmul c (Fin 0.30)) (nums r ''CostUSD'')) r)"

subsection \<open>Exercise 3: provisioned concurrency\<close>

text \<open>
  The two labels of the source start with a symbol outside ASCII, written here by its
  UTF-8 bytes. \<^verbatim>\<open>pc.apply(..., axis=1)\<close> is taken as the row-wise map.
\<close>

definition reduce_remove_pc :: string where
  "reduce_remove_pc = [CHR 0xE2, CHR 0x9D, CHR 0x8C] @ '' Reduce / Remove PC''"

definition keep_pc :: string where
  "keep_pc = [CHR 0xE2, CHR 0x9C, CHR 0x94, CHR 0xEF, CHR 0xB8, CHR 0x8F] @ '' Keep PC''"

definition recommendation :: "fl \<Rightarrow> string" where
  "recommendation cold = (if flt cold (Fin 10) then reduce_remove_pc else keep_pc)"

definition pc_mask :: "frame \<Rightarrow> bool list" where
  "pc_mask df = map (\<lambda>v. fgt v (Fin 0)) (nums df ''ProvisionedConcurrency'')"

definition pc :: "frame \<Rightarrow> frame" where
  "pc df =
     (let r = select (pc_mask df) df
      in set_col ''Recommendation''
           (map (\<lambda>c. Str (recommendation c)) (nums r ''ColdStartRate'')) r)"

subsection \<open>Exercise 4: low-value workloads\<close>

definition inv_threshold :: "frame \<Rightarrow> fl" where
  "inv_threshold df = fmul (ssum (column df ''InvocationsPerMonth'')) (Fin 0.01)"

definition low_value_mask :: "frame \<Rightarrow> bool list" where
  "low_value_mask df =
     map2 (\<and>) (map (\<lambda>v. flt v (inv_threshold df)) (nums df ''InvocationsPerMonth''))
              (map (\<lambda>c. fgt c (fmean (nums df ''CostUSD''))) (nums df ''CostUSD''))"

definition low_value :: "frame \<Rightarrow> frame" where
  "low_value df = select (low_value_mask df) df"

subsection \<open>Exercise 5: cost forecasting\<close>

text \<open>
  Arithmetic on columns is cell by cell; a scalar operand applies to every cell. The
  product of two int64 columns is an int64 column and wraps around; any other product, and
  every product with a float scalar, is a product of floats.
\<close>

definition cmul :: "series \<Rightarrow> series \<Rightarrow> series" where
  "cmul xs ys =
     (if int64 xs \<and> int64 ys then map2 (\<lambda>x y. I64 (wrap64 (int_of x * int_of y))) xs ys
      else map2 (\<lambda>x y. Num (fmul (num_of x) (num_of y))) xs ys)"

definition vadd :: "fl list \<Rightarrow> fl list \<Rightarrow> fl list" where
  "vadd xs ys = map2 fadd xs ys"

definition smul :: "fl list \<Rightarrow> fl \<Rightarrow> fl list" where
  "smul xs k = map (\<lambda>x. fmul x k) xs"

definition forecasted_cost :: "frame \<Rightarrow> fl list" where
  "forecasted_cost df =
     vadd (smul (map num_of (cmul (cmul (column df ''InvocationsPerMonth'')
                                        (column df ''AvgDurationMs''))
                                  (column df ''MemoryMB'')))
                (Fin 0.00000000012))
          (smul (nums df ''DataTransferGB'') (Fin 0.09))"

definition cost_forecasting :: "frame \<Rightarrow> frame" where
  "cost_forecasting df = set_nums ''ForecastedCost'' (forecasted_cost df) df"

subsection \<open>Exercise 6: containerization candidates\<close>

definition containers_mask :: "frame \<Rightarrow> bool list" where
  "containers_mask df =
     map2 (\<and>) (map (\<lambda>d. fgt d (Fin 3000)) (nums df ''AvgDurationMs''))
              (map (\<lambda>m. fgt m (Fin 2048)) (nums df ''MemoryMB''))"

definition containers :: "frame \<Rightarrow> frame" where
  "containers df = select (containers_mask df) df"

section \<open>The script\<close>

text \<open>
  The variables of the script. Only \<^verbatim>\<open>df\<close> is shared between the exercises; boolean
  indexing and sorting build new frames, so the columns added to \<^verbatim>\<open>df_sorted\<close>,
  \<^verbatim>\<open>right_sizing\<close> and \<^verbatim>\<open>pc\<close> are not written to \<^verbatim>\<open>df\<close>. Exercise 5 assigns to
  \<^verbatim>\<open>df\<close> itself.
\<close>

record script =
  s_df :: frame
  s_df_sorted :: frame
  s_top_80 :: frame
  s_right_sizing :: frame
  s_pc :: frame
  s_low_value :: frame
  s_containers :: frame

definition exercise1 :: "script \<Rightarrow> script" where
  "exercise1 s = s\<lparr>s_df_sorted := df_sorted (s_df s), s_top_80 := top_80 (s_df s)\<rparr>"

definition exercise2 :: "script \<Rightarrow> script" where
  "exercise2 s = s\<lparr>s_right_sizing := right_sizing (s_df s)\<rparr>"

definition exercise3 :: "script \<Rightarrow> script" where
  "exercise3 s = s\<lparr>s_pc := pc (s_df s)\<rparr>"

definition exercise4 :: "script \<Rightarrow> script" where
  "exercise4 s = s\<lparr>s_low_value := low_value (s_df s)\<rparr>"

definition exercise5 :: "script \<Rightarrow> script" where
  "exercise5 s = s\<lparr>s_df := cost_forecasting (s_df s)\<rparr>"

definition exercise6 :: "script \<Rightarrow> script" where
  "exercise6 s = s\<lparr>s_containers := containers (s_df s)\<rparr>"

definition exercises :: "(script \<Rightarrow> script) list" where
  "exercises = [exercise1, exercise2, exercise3, exercise4, exercise5, exercise6]"

definition start :: "frame \<Rightarrow> script" where
  "start df = \<lparr>s_df = df, s_df_sorted = [], s_top_80 = [], s_right_sizing = [], s_pc = [],
               s_low_value = [], s_containers = []\<rparr>"

definition run_views :: "frame \<Rightarrow> script" where
  "run_views df =
     exercise6 (exercise5 (exercise4 (exercise3 (exercise2 (exercise1 (start df))))))"

section \<open>Loading and repair\<close>

definition schema :: "string list" where
  "schema = [''FunctionName'', ''Environment'', ''InvocationsPerMonth'', ''AvgDurationMs'',
             ''MemoryMB'', ''ColdStartRate'', ''ProvisionedConcurrency'', ''GBSeconds'',
             ''DataTransferGB'', ''CostUSD'']"

text \<open>Python's \<^verbatim>\<open>s.split(",")\<close>: every separator splits, and there is always one field.\<close>

fun split_on :: "char \<Rightarrow> string \<Rightarrow> string list" where
  "split_on d [] = [[]]"
| "split_on d (c # cs) =
     (if c = d then [] # split_on d cs
      else (case split_on d cs of [] \<Rightarrow> [[c]] | w # ws \<Rightarrow> (c # w) # ws))"

text \<open>
  \<^verbatim>\<open>col.str.split(",", expand=True)\<close>: the accessor \<^verbatim>\<open>.str\<close> raises AttributeError on a
  column that holds no string. The result has as many columns as the longest split has
  fields; a shorter row, and a row that is no string, is filled up with missing cells.
\<close>

definition fields_of :: "cell \<Rightarrow> string list" where
  "fields_of x = (case x of Str s \<Rightarrow> split_on CHR '','' s | I64 i \<Rightarrow> [] | Num v \<Rightarrow> [])"

definition field_cell :: "string list \<Rightarrow> nat \<Rightarrow> cell" where
  "field_cell fs j = (if j < length fs then Str (fs ! j) else Num NaN)"

definition width :: "series \<Rightarrow> nat" where
  "width col = foldr max (map (\<lambda>x. length (fields_of x)) col) 0"

definition str_split_expand :: "series \<Rightarrow> exn + series list" where
  "str_split_expand col =
     (if list_all is_num col then Inl AttributeError
      else Inr (map (\<lambda>j. map (\<lambda>x. field_cell (fields_of x) j) col) [0..<width col]))"

text \<open>\<^verbatim>\<open>df.columns = names\<close> raises ValueError unless there is one name for each column.\<close>

definition set_columns :: "string list \<Rightarrow> series list \<Rightarrow> exn + frame" where
  "set_columns names cols =
     (if length cols = length names then Inr (zip names cols)
      else Inl (LengthMismatch (length cols) (length names)))"

text \<open>
  The two calls of \<^verbatim>\<open>pd.read_csv\<close> are parameters: \<open>read_csv\<close> reads with a header row
  and gives a frame, \<open>read_csv_noheader\<close> reads with \<^verbatim>\<open>header=None\<close> and gives the
  columns in order, labelled 0, 1, ... Either may raise. The body of the \<^verbatim>\<open>try\<close> block:
\<close>

definition repair :: "series list \<Rightarrow> exn + frame" where
  "repair temp =
     (case temp of
        [] \<Rightarrow> Inl (KeyError ''0'')
      | col0 # rest \<Rightarrow>
          (case str_split_expand col0 of
             Inl e \<Rightarrow> Inl e
           | Inr cols \<Rightarrow> set_columns schema cols))"

definition load_csv ::
  "(string \<Rightarrow> exn + frame) \<Rightarrow> (string \<Rightarrow> exn + series list) \<Rightarrow> string \<Rightarrow> exn + frame" where
  "load_csv read_csv read_csv_noheader uploaded =
     (case read_csv uploaded of
        Inl e \<Rightarrow> Inl e
      | Inr df \<Rightarrow>
          if length df = 1 then
            (case read_csv_noheader uploaded of
               Inl e \<Rightarrow> Inl e
             | Inr temp \<Rightarrow> repair temp)
          else Inr df)"

text \<open>
  What the coercion loop leaves behind when it succeeds on a rectangular table: the table
  is still rectangular, and each of the eight columns exists and holds numbers only.
\<close>

definition coerced :: "frame \<Rightarrow> bool" where
  "coerced df =
     (rect df \<and>
      list_all (\<lambda>c. case map_of df c of None \<Rightarrow> False | Some col \<Rightarrow> list_all is_num col)
        numeric_cols)"

text \<open>
  The whole script. Without an upload it waits. An exception in the \<^verbatim>\<open>try\<close> block is
  reported as a parse failure and the script stops. The coercion loop and the exercises
  are outside the block: a KeyError there is not caught. The exercises read the eight
  numeric columns, which the loop has checked, and \<^verbatim>\<open>FunctionName\<close>, first in the
  column selection that ends exercise 2.
\<close>

datatype outcome = Waiting | ParseFailure exn | Uncaught exn | Rendered script

definition pipeline ::
  "(string \<Rightarrow> exn + frame) \<Rightarrow> (string \<Rightarrow> exn + series list) \<Rightarrow> parser \<Rightarrow> string option
     \<Rightarrow> outcome" where
  "pipeline read_csv read_csv_noheader p uploaded =
     (case uploaded of
        None \<Rightarrow> Waiting
      | Some file \<Rightarrow>
          (case load_csv read_csv read_csv_noheader file of
             Inl e \<Rightarrow> ParseFailure e
           | Inr df0 \<Rightarrow>
               (case coerce_cols p numeric_cols df0 of
                  Inl e \<Rightarrow> Uncaught e
                | Inr df \<Rightarrow>
                    if map_of df ''FunctionName'' = None then Uncaught (KeyError ''FunctionName'')
                    else Rendered (run_views df))))"

section \<open>Example inputs\<close>

text \<open>A parser of number literals that knows one literal, for the worked examples.\<close>

definition seven_only :: parser where
  "seven_only s = (if s = ''7'' then Some (Inr (Fin 7)) else None)"

text \<open>
  A table with the ten columns of the schema, the eight numeric ones already numbers:
  float64 columns in \<open>table\<close>, int64 columns in \<open>int_table\<close>.
\<close>

definition table ::
  "string list \<Rightarrow> string list \<Rightarrow> fl list \<Rightarrow> fl list \<Rightarrow> fl list \<Rightarrow> fl list \<Rightarrow> fl list \<Rightarrow>
     fl list \<Rightarrow> fl list \<Rightarrow> fl list \<Rightarrow> frame" where
  "table names envs invs dur mem cold prov gbs dt cost =
     [(''FunctionName'', map Str names), (''Environment'', map Str envs),
      (''InvocationsPerMonth'', map Num invs), (''AvgDurationMs'', map Num dur),
      (''MemoryMB'', map Num mem), (''ColdStartRate'', map Num cold),
      (''ProvisionedConcurrency'', map Num prov), (''GBSeconds'', map Num gbs),
      (''DataTransferGB'', map Num dt), (''CostUSD'', map Num cost)]"

definition int_table ::
  "string list \<Rightarrow> string list \<Rightarrow> int list \<Rightarrow> int list \<Rightarrow> int list \<Rightarrow> int list \<Rightarrow> int list \<Rightarrow>
     int list \<Rightarrow> int list \<Rightarrow> int list \<Rightarrow> frame" where
  "int_table names envs invs dur mem cold prov gbs dt cost =
     [(''FunctionName'', map Str names), (''Environment'', map Str envs),
      (''InvocationsPerMonth'', map I64 invs), (''AvgDurationMs'', map I64 dur),
      (''MemoryMB'', map I64 mem), (''ColdStartRate'', map I64 cold),
      (''ProvisionedConcurrency'', map I64 prov), (''GBSeconds'', map I64 gbs),
      (''DataTransferGB'', map I64 dt), (''CostUSD'', map I64 cost)]"

section \<open>Basic facts\<close>

lemma coerce_idem: "coerce p (coerce p x) = coerce p x"
  by (cases x) (auto split: option.splits sum.splits)

lemma to_numeric_idem: "to_numeric p (to_numeric p col) = to_numeric p col"
  by (simp add: to_numeric_def coerce_idem)

lemma map_of_set_col: "map_of (set_col c col df) k = (if k = c then Some col else map_of df k)"
  by (simp add: set_col_def update_conv')

lemma set_col_same: "map_of df c = Some col \<Longrightarrow> set_col c col df = df"
  unfolding set_col_def by (induction df) (auto split: if_splits)

subsection \<open>The coercion loop\<close>

lemma coerce_cols_result:
  "coerce_cols p cs df = Inr df' \<Longrightarrow>
   map_of df' k = (if k \<in> set cs then map_option (to_numeric p) (map_of df k) else map_of df k)"
proof (induction cs arbitrary: df)
  case Nil
  then show ?case by simp
next
  case (Cons c cs)
  then obtain col where c: "map_of df c = Some col"
    and r: "coerce_cols p cs (set_col c (to_numeric p col) df) = Inr df'"
    by (auto split: option.splits)
  show ?case
    using Cons.IH[OF r] c by (auto simp: map_of_set_col to_numeric_idem)
qed

lemma coerce_cols_fixed:
  "\<forall>c\<in>set cs. \<exists>col. map_of df c = Some col \<and> to_numeric p col = col \<Longrightarrow>
   coerce_cols p cs df = Inr df"
  by (induction cs) (auto simp: set_col_same)

lemma coerce_cols_ok:
  "coerce_cols p cs df = Inr df' \<Longrightarrow> c \<in> set cs \<Longrightarrow> \<exists>col. map_of df c = Some col"
proof (induction cs arbitrary: df)
  case Nil
  then show ?case by simp
next
  case (Cons a cs)
  then obtain col where a: "map_of df a = Some col"
    and r: "coerce_cols p cs (set_col a (to_numeric p col) df) = Inr df'"
    by (auto split: option.splits)
  show ?case
  proof (cases "c = a")
    case True
    then show ?thesis using a by simp
  next
    case False
    then have "c \<in> set cs" using Cons.prems by simp
    from Cons.IH[OF r this] False show ?thesis by (simp add: map_of_set_col)
  qed
qed

text \<open>
  C4. Numeric coercion is idempotent. When the coercion loop succeeds on a table, running
  it again on its result succeeds and changes nothing; each of the eight columns of the
  result is the coercion of the column it came from (a number unchanged, a string parsed
  or made missing), and coercing that column once more gives the same cells.
\<close>

theorem coercion_idempotent:
  assumes "coerce_cols p numeric_cols df = Inr df'"
  shows "coerce_cols p numeric_cols df' = Inr df' \<and>
         (\<forall>c\<in>set numeric_cols. \<exists>col. map_of df c = Some col \<and>
             map_of df' c = Some (to_numeric p col) \<and>
             to_numeric p (to_numeric p col) = to_numeric p col)"
proof -
  have a: "\<forall>c\<in>set numeric_cols. \<exists>col. map_of df c = Some col \<and>
             map_of df' c = Some (to_numeric p col)"
  proof
    fix c assume c: "c \<in> set numeric_cols"
    from coerce_cols_ok[OF assms c] obtain col where "map_of df c = Some col" by blast
    with coerce_cols_result[OF assms, of c] c
    show "\<exists>col. map_of df c = Some col \<and> map_of df' c = Some (to_numeric p col)" by simp
  qed
  then have "\<forall>c\<in>set numeric_cols. \<exists>col. map_of df' c = Some col \<and> to_numeric p col = col"
    by (metis to_numeric_idem)
  from coerce_cols_fixed[OF this] a show ?thesis by (metis to_numeric_idem)
qed

theorem coercion_idempotent_witness:
  "coerce_cols seven_only numeric_cols
     [(''InvocationsPerMonth'', [Str ''7'', Str ''x'']), (''AvgDurationMs'', [Num (Fin 1), Num NaN]),
      (''MemoryMB'', [Str ''7'', Str ''7'']), (''ColdStartRate'', [Str '''', Str ''7'']),
      (''ProvisionedConcurrency'', [Num (Fin 0), Num (Fin 2)]), (''GBSeconds'', [Str ''7'', Num NaN]),
      (''DataTransferGB'', [Num (Fin 3), Num (Fin 4)]), (''CostUSD'', [Str ''n/a'', Str ''7''])]
   = Inr [(''InvocationsPerMonth'', [Num (Fin 7), Num NaN]), (''AvgDurationMs'', [Num (Fin 1), Num NaN]),
      (''MemoryMB'', [Num (Fin 7), Num (Fin 7)]), (''ColdStartRate'', [Num NaN, Num (Fin 7)]),
      (''ProvisionedConcurrency'', [Num (Fin 0), Num (Fin 2)]), (''GBSeconds'', [Num (Fin 7), Num NaN]),
      (''DataTransferGB'', [Num (Fin 3), Num (Fin 4)]), (''CostUSD'', [Num NaN, Num (Fin 7)])]
   \<and> coerce_cols seven_only numeric_cols
     [(''InvocationsPerMonth'', [Num (Fin 7), Num NaN]), (''AvgDurationMs'', [Num (Fin 1), Num NaN]),
      (''MemoryMB'', [Num (Fin 7), Num (Fin 7)]), (''ColdStartRate'', [Num NaN, Num (Fin 7)]),
      (''ProvisionedConcurrency'', [Num (Fin 0), Num (Fin 2)]), (''GBSeconds'', [Num (Fin 7), Num NaN]),
      (''DataTransferGB'', [Num (Fin 3), Num (Fin 4)]), (''CostUSD'', [Num NaN, Num (Fin 7)])]
   = Inr [(''InvocationsPerMonth'', [Num (Fin 7), Num NaN]), (''AvgDurationMs'', [Num (Fin 1), Num NaN]),
      (''MemoryMB'', [Num (Fin 7), Num (Fin 7)]), (''ColdStartRate'', [Num NaN, Num (Fin 7)]),
      (''ProvisionedConcurrency'', [Num (Fin 0), Num (Fin 2)]), (''GBSeconds'', [Num (Fin 7), Num NaN]),
      (''DataTransferGB'', [Num (Fin 3), Num (Fin 4)]), (''CostUSD'', [Num NaN, Num (Fin 7)])]"
proof -
  have h: "coerce_cols seven_only numeric_cols
     [(''InvocationsPerMonth'', [Str ''7'', Str ''x'']), (''AvgDurationMs'', [Num (Fin 1), Num NaN]),
      (''MemoryMB'', [Str ''7'', Str ''7'']), (''ColdStartRate'', [Str '''', Str ''7'']),
      (''ProvisionedConcurrency'', [Num (Fin 0), Num (Fin 2)]), (''GBSeconds'', [Str ''7'', Num NaN]),
      (''DataTransferGB'', [Num (Fin 3), Num (Fin 4)]), (''CostUSD'', [Str ''n/a'', Str ''7''])]
   = Inr [(''InvocationsPerMonth'', [Num (Fin 7), Num NaN]), (''AvgDurationMs'', [Num (Fin 1), Num NaN]),
      (''MemoryMB'', [Num (Fin 7), Num (Fin 7)]), (''ColdStartRate'', [Num NaN, Num (Fin 7)]),
      (''ProvisionedConcurrency'', [Num (Fin 0), Num (Fin 2)]), (''GBSeconds'', [Num (Fin 7), Num NaN]),
      (''DataTransferGB'', [Num (Fin 3), Num (Fin 4)]), (''CostUSD'', [Num NaN, Num (Fin 7)])]"
    by (simp add: numeric_cols_def set_col_def to_numeric_def seven_only_def)
  from coercion_idempotent[OF h] h show ?thesis by simp
qed

section \<open>Frames, masks and row labels\<close>

lemma nums_set_col: "nums (set_col c col df) k = (if k = c then map num_of col else nums df k)"
  by (simp add: nums_def map_of_set_col)

lemma nums_set_nums: "nums (set_nums c vs df) k = (if k = c then vs else nums df k)"
  by (simp add: set_nums_def nums_set_col o_def)

lemma map_of_set_nums:
  "map_of (set_nums c vs df) k = (if k = c then Some (map Num vs) else map_of df k)"
  by (simp add: set_nums_def map_of_set_col)

lemma rect_length: "rect df \<Longrightarrow> map_of df c = Some col \<Longrightarrow> length col = nrows df"
  by (auto simp: rect_def list_all_iff dest!: map_of_SomeD)

lemma coerced_col:
  "coerced df \<Longrightarrow> c \<in> set numeric_cols \<Longrightarrow>
   \<exists>col. map_of df c = Some col \<and> list_all is_num col \<and> length col = nrows df"
proof -
  assume a: "coerced df" "c \<in> set numeric_cols"
  then have "case map_of df c of None \<Rightarrow> False | Some col \<Rightarrow> list_all is_num col"
    unfolding coerced_def list_all_iff by blast
  then obtain col where c: "map_of df c = Some col" "list_all is_num col"
    by (cases "map_of df c") auto
  moreover have "rect df" using a(1) by (simp add: coerced_def)
  ultimately show ?thesis using rect_length by blast
qed

lemma coerced_length: "coerced df \<Longrightarrow> c \<in> set numeric_cols \<Longrightarrow> length (nums df c) = nrows df"
  by (auto simp: nums_def dest: coerced_col)

lemma pick_map: "pick bs (map f ys) = map f (pick bs ys)"
  by (simp add: pick_def zip_map2 filter_map o_def split_def)

lemma pick_nth: "length xs = length bs \<Longrightarrow> pick bs xs = map ((!) xs) (kept bs)"
proof -
  assume l: "length xs = length bs"
  have "xs = map ((!) xs) [0..<length bs]" by (simp add: l[symmetric] map_nth)
  then have "pick bs xs = pick bs (map ((!) xs) [0..<length bs])" by simp
  then show ?thesis by (simp only: pick_map kept_def)
qed

lemma kept_filter: "kept bs = filter (\<lambda>i. bs ! i) [0..<length bs]"
proof (induction bs rule: rev_induct)
  case Nil
  then show ?case by (simp add: kept_def pick_def)
next
  case (snoc b bs)
  have "filter (\<lambda>i. (bs @ [b]) ! i) [0..<length bs] = filter (\<lambda>i. bs ! i) [0..<length bs]"
    by (rule filter_cong) (auto simp: nth_append)
  with snoc show ?case by (simp add: kept_def pick_def)
qed

lemma map_of_select: "map_of (select bs df) k = map_option (pick bs) (map_of df k)"
  unfolding select_def by (induction df) auto

lemma nums_select: "nums (select bs df) k = pick bs (nums df k)"
  by (cases "map_of df k") (simp_all add: nums_def map_of_select pick_map pick_def[of bs "[]"])

lemma coerced_table:
  "length names = n \<Longrightarrow> length envs = n \<Longrightarrow> length invs = n \<Longrightarrow> length dur = n \<Longrightarrow>
   length mem = n \<Longrightarrow> length cold = n \<Longrightarrow> length prov = n \<Longrightarrow> length gbs = n \<Longrightarrow>
   length dt = n \<Longrightarrow> length cost = n \<Longrightarrow>
   coerced (table names envs invs dur mem cold prov gbs dt cost)"
  by (simp add: coerced_def rect_def nrows_def table_def numeric_cols_def list_all_iff)

section \<open>Right-sizing\<close>

lemma select_col:
  assumes "rect df" and "map_of df k = Some col" and "length bs = nrows df"
  shows "map_of (select bs df) k = Some (map ((!) col) (kept bs))"
proof -
  have "length col = length bs" using rect_length[OF assms(1,2)] assms(3) by simp
  then show ?thesis by (simp add: map_of_select assms(2) pick_nth)
qed

lemma nums_select_nth:
  assumes "length (nums df k) = length bs"
  shows "nums (select bs df) k = map ((!) (nums df k)) (kept bs)"
  by (simp add: nums_select pick_nth[OF assms])

lemma right_sizing_mask_nth:
  assumes "coerced df"
  shows "length (right_sizing_mask df) = nrows df"
    and "i < nrows df \<Longrightarrow> right_sizing_mask df ! i =
           (flt (nums df ''AvgDurationMs'' ! i) (Fin 600) \<and> fgt (nums df ''MemoryMB'' ! i) (Fin 1024))"
proof -
  have l: "length (nums df ''AvgDurationMs'') = nrows df" "length (nums df ''MemoryMB'') = nrows df"
    using assms by (simp_all add: coerced_length numeric_cols_def)
  show "length (right_sizing_mask df) = nrows df" by (simp add: right_sizing_mask_def l)
  show "i < nrows df \<Longrightarrow> right_sizing_mask df ! i =
           (flt (nums df ''AvgDurationMs'' ! i) (Fin 600) \<and> fgt (nums df ''MemoryMB'' ! i) (Fin 1024))"
    by (simp add: right_sizing_mask_def l)
qed

lemma kept_char:
  assumes "length bs = n" and "\<And>i. i < n \<Longrightarrow> bs ! i = P i"
  shows "kept bs = filter P [0..<n]"
  unfolding kept_filter assms(1) by (rule filter_cong) (auto simp: assms(2))

text \<open>
  C5. On a coerced table, the right-sizing view keeps exactly the rows where
  AvgDurationMs < 600 and MemoryMB > 1024, in table order: every column of the table is cut
  down to those rows, and the added column EstimatedSavings holds CostUSD times 0.30 for
  each of them. A row with AvgDurationMs 500, MemoryMB 2048 and CostUSD 100 is kept, with
  savings 30; a row with AvgDurationMs 700 is not kept.
\<close>

theorem right_sizing_rows:
  assumes "coerced df"
  shows "kept (right_sizing_mask df) =
           filter (\<lambda>i. flt (nums df ''AvgDurationMs'' ! i) (Fin 600) \<and>
                        fgt (nums df ''MemoryMB'' ! i) (Fin 1024)) [0..<nrows df] \<and>
         (\<forall>k col. k \<noteq> ''EstimatedSavings'' \<and> map_of df k = Some col \<longrightarrow>
            map_of (right_sizing df) k = Some (map ((!) col) (kept (right_sizing_mask df)))) \<and>
         nums (right_sizing df) ''EstimatedSavings'' =
           map (\<lambda>i. fmul (nums df ''CostUSD'' ! i) (Fin 0.30)) (kept (right_sizing_mask df)) \<and>
         (\<forall>i<nrows df. nums df ''AvgDurationMs'' ! i = Fin 500 \<and> nums df ''MemoryMB'' ! i = Fin 2048 \<and>
              nums df ''CostUSD'' ! i = Fin 100 \<longrightarrow>
            i \<in> set (kept (right_sizing_mask df)) \<and>
            fmul (nums df ''CostUSD'' ! i) (Fin 0.30) = Fin 30) \<and>
         (\<forall>i<nrows df. nums df ''AvgDurationMs'' ! i = Fin 700 \<longrightarrow>
            i \<notin> set (kept (right_sizing_mask df)))"
proof -
  let ?bs = "right_sizing_mask df"
  have r: "rect df" using assms by (simp add: coerced_def)
  have l: "length ?bs = nrows df" by (rule right_sizing_mask_nth(1)[OF assms])
  have k: "kept ?bs = filter (\<lambda>i. flt (nums df ''AvgDurationMs'' ! i) (Fin 600) \<and>
                        fgt (nums df ''MemoryMB'' ! i) (Fin 1024)) [0..<nrows df]"
    by (rule kept_char[OF l]) (rule right_sizing_mask_nth(2)[OF assms])
  have c: "\<forall>k col. k \<noteq> ''EstimatedSavings'' \<and> map_of df k = Some col \<longrightarrow>
            map_of (right_sizing df) k = Some (map ((!) col) (kept ?bs))"
    by (simp add: right_sizing_def Let_def map_of_set_nums select_col[OF r _ l])
  have lc: "length (nums df ''CostUSD'') = length ?bs"
    using assms l by (simp add: coerced_length numeric_cols_def)
  have s: "nums (right_sizing df) ''EstimatedSavings'' =
           map (\<lambda>i. fmul (nums df ''CostUSD'' ! i) (Fin 0.30)) (kept ?bs)"
    by (simp add: right_sizing_def Let_def nums_set_nums nums_select_nth[OF lc] o_def)
  have e1: "\<forall>i<nrows df. nums df ''AvgDurationMs'' ! i = Fin 500 \<and> nums df ''MemoryMB'' ! i = Fin 2048 \<and>
              nums df ''CostUSD'' ! i = Fin 100 \<longrightarrow>
            i \<in> set (kept ?bs) \<and> fmul (nums df ''CostUSD'' ! i) (Fin 0.30) = Fin 30"
    by (simp add: k fgt_def)
  have e2: "\<forall>i<nrows df. nums df ''AvgDurationMs'' ! i = Fin 700 \<longrightarrow> i \<notin> set (kept ?bs)"
    by (simp add: k)
  show ?thesis using k c s e1 e2 by blast
qed

theorem right_sizing_rows_witness:
  "right_sizing (table [''a'', ''b'', ''c''] [''prod'', ''prod'', ''dev''] [Fin 10, Fin 20, Fin 30]
       [Fin 500, Fin 700, Fin 500] [Fin 2048, Fin 2048, Fin 1024] [Fin 1, Fin 2, Fin 3]
       [Fin 0, Fin 0, Fin 0] [Fin 1, Fin 1, Fin 1] [Fin 0, Fin 0, Fin 0] [Fin 100, Fin 100, Fin 100])
   = table [''a''] [''prod''] [Fin 10] [Fin 500] [Fin 2048] [Fin 1] [Fin 0] [Fin 1] [Fin 0] [Fin 100]
       @ [(''EstimatedSavings'', [Num (Fin 30)])]"
proof -
  let ?df = "table [''a'', ''b'', ''c''] [''prod'', ''prod'', ''dev''] [Fin 10, Fin 20, Fin 30]
       [Fin 500, Fin 700, Fin 500] [Fin 2048, Fin 2048, Fin 1024] [Fin 1, Fin 2, Fin 3]
       [Fin 0, Fin 0, Fin 0] [Fin 1, Fin 1, Fin 1] [Fin 0, Fin 0, Fin 0] [Fin 100, Fin 100, Fin 100]"
  have c: "coerced ?df" by (rule coerced_table[of _ 3]) simp_all
  have "kept (right_sizing_mask ?df) = [0]"
    using right_sizing_rows[OF c]
    by (simp add: nums_def table_def nrows_def fgt_def upt_rec[of 0] upt_rec[of 1] upt_rec[of 2])
  then show ?thesis
    by (simp add: right_sizing_def Let_def select_def pick_def set_nums_def set_col_def
        right_sizing_mask_def nums_def table_def fgt_def)
qed

section \<open>Provisioned concurrency\<close>

lemma pc_mask_nth:
  assumes "coerced df"
  shows "length (pc_mask df) = nrows df"
    and "i < nrows df \<Longrightarrow> pc_mask df ! i = fgt (nums df ''ProvisionedConcurrency'' ! i) (Fin 0)"
proof -
  have l: "length (nums df ''ProvisionedConcurrency'') = nrows df"
    using assms by (simp add: coerced_length numeric_cols_def)
  show "length (pc_mask df) = nrows df" by (simp add: pc_mask_def l)
  show "i < nrows df \<Longrightarrow> pc_mask df ! i = fgt (nums df ''ProvisionedConcurrency'' ! i) (Fin 0)"
    by (simp add: pc_mask_def l)
qed

lemma labels_differ: "reduce_remove_pc \<noteq> keep_pc"
  by (simp add: reduce_remove_pc_def keep_pc_def)

text \<open>
  C6. On a coerced table, the provisioned-concurrency view keeps exactly the rows where
  ProvisionedConcurrency > 0, in table order, and its column Recommendation holds, for each
  kept row, the reduce/remove label when ColdStartRate < 10 and the keep label otherwise.
  A row with ProvisionedConcurrency 5 is kept; with ColdStartRate 5 its label is
  reduce/remove, with ColdStartRate 15 it is keep.
\<close>

theorem pc_recommendation:
  assumes "coerced df"
  shows "kept (pc_mask df) =
           filter (\<lambda>i. fgt (nums df ''ProvisionedConcurrency'' ! i) (Fin 0)) [0..<nrows df] \<and>
         (\<forall>k col. k \<noteq> ''Recommendation'' \<and> map_of df k = Some col \<longrightarrow>
            map_of (pc df) k = Some (map ((!) col) (kept (pc_mask df)))) \<and>
         map_of (pc df) ''Recommendation'' =
           Some (map (\<lambda>i. Str (if flt (nums df ''ColdStartRate'' ! i) (Fin 10)
                                then reduce_remove_pc else keep_pc)) (kept (pc_mask df))) \<and>
         (\<forall>i<nrows df. nums df ''ProvisionedConcurrency'' ! i = Fin 5 \<and>
              nums df ''ColdStartRate'' ! i = Fin 5 \<longrightarrow>
            i \<in> set (kept (pc_mask df)) \<and>
            recommendation (nums df ''ColdStartRate'' ! i) = reduce_remove_pc) \<and>
         (\<forall>i<nrows df. nums df ''ProvisionedConcurrency'' ! i = Fin 5 \<and>
              nums df ''ColdStartRate'' ! i = Fin 15 \<longrightarrow>
            i \<in> set (kept (pc_mask df)) \<and>
            recommendation (nums df ''ColdStartRate'' ! i) = keep_pc)"
proof -
  let ?bs = "pc_mask df"
  have r: "rect df" using assms by (simp add: coerced_def)
  have l: "length ?bs = nrows df" by (rule pc_mask_nth(1)[OF assms])
  have k: "kept ?bs = filter (\<lambda>i. fgt (nums df ''ProvisionedConcurrency'' ! i) (Fin 0)) [0..<nrows df]"
    by (rule kept_char[OF l]) (rule pc_mask_nth(2)[OF assms])
  have c: "\<forall>k col. k \<noteq> ''Recommendation'' \<and> map_of df k = Some col \<longrightarrow>
            map_of (pc df) k = Some (map ((!) col) (kept ?bs))"
    by (simp add: pc_def Let_def map_of_set_col select_col[OF r _ l])
  have lc: "length (nums df ''ColdStartRate'') = length ?bs"
    using assms l by (simp add: coerced_length numeric_cols_def)
  have s: "map_of (pc df) ''Recommendation'' =
           Some (map (\<lambda>i. Str (if flt (nums df ''ColdStartRate'' ! i) (Fin 10)
                                then reduce_remove_pc else keep_pc)) (kept ?bs))"
    by (simp add: pc_def Let_def map_of_set_col nums_select_nth[OF lc] o_def recommendation_def)
  have e1: "\<forall>i<nrows df. nums df ''ProvisionedConcurrency'' ! i = Fin 5 \<and>
              nums df ''ColdStartRate'' ! i = Fin 5 \<longrightarrow>
            i \<in> set (kept ?bs) \<and> recommendation (nums df ''ColdStartRate'' ! i) = reduce_remove_pc"
    by (simp add: k fgt_def recommendation_def)
  have e2: "\<forall>i<nrows df. nums df ''ProvisionedConcurrency'' ! i = Fin 5 \<and>
              nums df ''ColdStartRate'' ! i = Fin 15 \<longrightarrow>
            i \<in> set (kept ?bs) \<and> recommendation (nums df ''ColdStartRate'' ! i) = keep_pc"
    by (simp add: k fgt_def recommendation_def)
  show ?thesis using k c s e1 e2 by blast
qed

theorem pc_recommendation_witness:
  "pc (table [''a'', ''b'', ''c''] [''prod'', ''prod'', ''dev''] [Fin 10, Fin 20, Fin 30]
       [Fin 500, Fin 700, Fin 500] [Fin 2048, Fin 2048, Fin 1024] [Fin 5, Fin 2, Fin 15]
       [Fin 5, Fin 0, Fin 5] [Fin 1, Fin 1, Fin 1] [Fin 0, Fin 0, Fin 0] [Fin 100, Fin 100, Fin 100])
   = table [''a'', ''c''] [''prod'', ''dev''] [Fin 10, Fin 30] [Fin 500, Fin 500]
       [Fin 2048, Fin 1024] [Fin 5, Fin 15] [Fin 5, Fin 5] [Fin 1, Fin 1] [Fin 0, Fin 0]
       [Fin 100, Fin 100]
       @ [(''Recommendation'', [Str reduce_remove_pc, Str keep_pc])]"
proof -
  let ?df = "table [''a'', ''b'', ''c''] [''prod'', ''prod'', ''dev''] [Fin 10, Fin 20, Fin 30]
       [Fin 500, Fin 700, Fin 500] [Fin 2048, Fin 2048, Fin 1024] [Fin 5, Fin 2, Fin 15]
       [Fin 5, Fin 0, Fin 5] [Fin 1, Fin 1, Fin 1] [Fin 0, Fin 0, Fin 0] [Fin 100, Fin 100, Fin 100]"
  have c: "coerced ?df" by (rule coerced_table[of _ 3]) simp_all
  have "kept (pc_mask ?df) = [0, 2]"
    using pc_recommendation[OF c]
    by (simp add: nums_def table_def nrows_def fgt_def upt_rec[of 0] upt_rec[of 1] upt_rec[of 2])
  then show ?thesis
    by (simp add: pc_def Let_def select_def pick_def set_col_def pc_mask_def nums_def table_def
        fgt_def recommendation_def)
qed

section \<open>Sorting and the columns of the cost-concentration view\<close>

lemma set_insort_desc: "set (insort_desc x ys) = insert x (set ys)"
  by (induction ys) auto

lemma length_insort_desc: "length (insort_desc x ys) = Suc (length ys)"
  by (induction ys) auto

lemma set_foldr_insort: "set (foldr insort_desc ps []) = set ps"
  by (induction ps) (auto simp: set_insort_desc)

lemma length_foldr_insort: "length (foldr insort_desc ps []) = length ps"
  by (induction ps) (auto simp: length_insort_desc)

lemma length_argsort: "length (argsort_desc ks) = length ks"
  by (simp add: argsort_desc_def length_foldr_insort)

lemma set_argsort: "set (argsort_desc ks) = {0..<length ks}"
proof -
  have m: "map snd (zip ks [0..<length ks]) = [0..<length ks]" by (rule map_snd_zip) simp
  have "set (argsort_desc ks) = snd ` set (zip ks [0..<length ks])"
    by (simp add: argsort_desc_def set_foldr_insort)
  also have "\<dots> = set (map snd (zip ks [0..<length ks]))" by (simp only: set_map)
  also have "\<dots> = {0..<length ks}" by (simp only: m set_upt)
  finally show ?thesis .
qed








lemma map_of_take_rows:
  "map_of (take_rows idx df) k = map_option (\<lambda>col. map ((!) col) idx) (map_of df k)"
  unfolding take_rows_def by (induction df) auto

lemma nums_take_rows:
  assumes "\<forall>i\<in>set idx. i < length (nums df k)"
  shows "nums (take_rows idx df) k = map ((!) (nums df k)) idx"
proof (cases "map_of df k")
  case None
  then show ?thesis using assms by (cases idx) (auto simp: nums_def map_of_take_rows)
next
  case (Some col)
  then show ?thesis using assms by (simp add: nums_def map_of_take_rows)
qed

lemma df_sorted_nums:
  shows "nums (df_sorted df) ''CostUSD'' =
           map ((!) (nums df ''CostUSD'')) (argsort_desc (nums df ''CostUSD''))"
    and "nums (df_sorted df) ''CostPercent'' =
           map (\<lambda>c. fmul (fdiv c (total_cost df)) (Fin 100)) (nums (df_sorted df) ''CostUSD'')"
    and "nums (df_sorted df) ''CumulativeCost'' = cumsum (nums (df_sorted df) ''CostPercent'')"
proof -
  have "\<forall>i\<in>set (argsort_desc (nums df ''CostUSD'')). i < length (nums df ''CostUSD'')"
    by (simp add: set_argsort)
  then have s0: "nums (sort_values_desc ''CostUSD'' df) ''CostUSD'' =
      map ((!) (nums df ''CostUSD'')) (argsort_desc (nums df ''CostUSD''))"
    unfolding sort_values_desc_def by (rule nums_take_rows)
  show a: "nums (df_sorted df) ''CostUSD'' =
           map ((!) (nums df ''CostUSD'')) (argsort_desc (nums df ''CostUSD''))"
    by (simp add: df_sorted_def Let_def nums_set_nums s0)
  show b: "nums (df_sorted df) ''CostPercent'' =
           map (\<lambda>c. fmul (fdiv c (total_cost df)) (Fin 100)) (nums (df_sorted df) ''CostUSD'')"
    by (simp add: df_sorted_def Let_def nums_set_nums)
  show "nums (df_sorted df) ''CumulativeCost'' = cumsum (nums (df_sorted df) ''CostPercent'')"
    by (simp add: df_sorted_def Let_def nums_set_nums)
qed

lemma df_sorted_col:
  assumes "k \<noteq> ''CostPercent''" and "k \<noteq> ''CumulativeCost''"
  shows "map_of (df_sorted df) k =
           map_option (\<lambda>col. map ((!) col) (argsort_desc (nums df ''CostUSD''))) (map_of df k)"
  using assms
  by (simp add: df_sorted_def Let_def map_of_set_nums sort_values_desc_def map_of_take_rows)

lemma length_cumsum_from: "length (cumsum_from a xs) = length xs"
  by (induction xs arbitrary: a) auto

lemma cumsum_from_NaN: "j < length xs \<Longrightarrow> xs ! j = NaN \<Longrightarrow> cumsum_from a xs ! j = NaN"
proof (induction xs arbitrary: a j)
  case Nil
  then show ?case by simp
next
  case (Cons x xs)
  then show ?case by (cases j) auto
qed

lemma pick_member:
  "x \<in> set (pick bs xs) \<Longrightarrow> \<exists>j. j < length bs \<and> j < length xs \<and> bs ! j \<and> xs ! j = x"
  by (auto simp: pick_def set_zip)

lemma top_80_mask_length: "length (top_80_mask df) = length (nums df ''CostUSD'')"
  by (simp add: top_80_mask_def df_sorted_nums cumsum_def length_cumsum_from length_argsort)

lemma top_80_rows_missing:
  assumes "i \<in> set (top_80_rows df)"
  shows "i < length (nums df ''CostUSD'') \<and> nums df ''CostUSD'' ! i \<noteq> NaN"
proof -
  let ?ks = "nums df ''CostUSD''"
  let ?perm = "argsort_desc ?ks"
  from assms obtain j where j: "j < length (top_80_mask df)" "j < length ?perm"
    "top_80_mask df ! j" "?perm ! j = i"
    unfolding top_80_rows_def by (blast dest: pick_member)
  have i: "i < length ?ks" using j(2,4) set_argsort[of ?ks] nth_mem[of j ?perm] by auto
  have "?ks ! i \<noteq> NaN"
  proof
    assume n: "?ks ! i = NaN"
    have "nums (df_sorted df) ''CostPercent'' ! j = NaN"
      using j(2,4) n by (simp add: df_sorted_nums)
    moreover have "j < length (nums (df_sorted df) ''CostPercent'')"
      using j(2) by (simp add: df_sorted_nums)
    ultimately have "nums (df_sorted df) ''CumulativeCost'' ! j = NaN"
      by (simp add: df_sorted_nums(3) cumsum_def cumsum_from_NaN)
    moreover have "j < length (nums (df_sorted df) ''CumulativeCost'')"
      using j(1) by (simp add: top_80_mask_def)
    ultimately have "\<not> top_80_mask df ! j" by (simp add: top_80_mask_def)
    then show False using j(3) by simp
  qed
  with i show ?thesis by simp
qed

section \<open>Missing values\<close>

lemma low_value_mask_nth:
  assumes "coerced df"
  shows "length (low_value_mask df) = nrows df"
    and "i < nrows df \<Longrightarrow> low_value_mask df ! i =
           (flt (nums df ''InvocationsPerMonth'' ! i) (inv_threshold df) \<and>
            fgt (nums df ''CostUSD'' ! i) (fmean (nums df ''CostUSD'')))"
proof -
  have l: "length (nums df ''InvocationsPerMonth'') = nrows df" "length (nums df ''CostUSD'') = nrows df"
    using assms by (simp_all add: coerced_length numeric_cols_def)
  show "length (low_value_mask df) = nrows df" by (simp add: low_value_mask_def l)
  show "i < nrows df \<Longrightarrow> low_value_mask df ! i =
           (flt (nums df ''InvocationsPerMonth'' ! i) (inv_threshold df) \<and>
            fgt (nums df ''CostUSD'' ! i) (fmean (nums df ''CostUSD'')))"
    by (simp add: low_value_mask_def l)
qed

lemma containers_mask_nth:
  assumes "coerced df"
  shows "length (containers_mask df) = nrows df"
    and "i < nrows df \<Longrightarrow> containers_mask df ! i =
           (fgt (nums df ''AvgDurationMs'' ! i) (Fin 3000) \<and> fgt (nums df ''MemoryMB'' ! i) (Fin 2048))"
proof -
  have l: "length (nums df ''AvgDurationMs'') = nrows df" "length (nums df ''MemoryMB'') = nrows df"
    using assms by (simp_all add: coerced_length numeric_cols_def)
  show "length (containers_mask df) = nrows df" by (simp add: containers_mask_def l)
  show "i < nrows df \<Longrightarrow> containers_mask df ! i =
           (fgt (nums df ''AvgDurationMs'' ! i) (Fin 3000) \<and> fgt (nums df ''MemoryMB'' ! i) (Fin 2048))"
    by (simp add: containers_mask_def l)
qed

lemma kept_member: "i \<in> set (kept bs) \<longleftrightarrow> i < length bs \<and> bs ! i"
  by (auto simp: kept_filter)

lemma flt_NaN [simp]: "\<not> flt x NaN" "\<not> flt NaN x" "\<not> fgt x NaN" "\<not> fgt NaN x" "\<not> fle x NaN" "\<not> fle NaN x"
  by (cases x; simp add: fgt_def)+

section \<open>Cost forecasting\<close>

lemma wrap64_id: "- (2 ^ 63) \<le> i \<Longrightarrow> i < 2 ^ 63 \<Longrightarrow> wrap64 i = i"
  by (simp add: wrap64_def)

lemma column_nums: "map num_of (column df c) = nums df c"
  by (simp add: column_def nums_def split: option.splits)

lemma int64_nth: "int64 xs \<Longrightarrow> i < length xs \<Longrightarrow> xs ! i = I64 (int_of (xs ! i))"
  by (cases "xs ! i") (auto simp: int64_def list_all_length)

lemma length_cmul: "length (cmul xs ys) = min (length xs) (length ys)"
  by (simp add: cmul_def)

lemma int64_cmul: "int64 xs \<Longrightarrow> int64 ys \<Longrightarrow> int64 (cmul xs ys)"
  by (auto simp: cmul_def int64_def list_all_iff set_zip)

lemma cmul_nth:
  assumes "i < length xs" and "i < length ys"
    and "num_of (xs ! i) = Fin a" and "num_of (ys ! i) = Fin b"
    and "- (2 ^ 63) \<le> a * b" and "a * b < 2 ^ 63"
  shows "num_of (cmul xs ys ! i) = Fin (a * b)"
proof (cases "int64 xs \<and> int64 ys")
  case True
  obtain x where x: "xs ! i = I64 x" using True assms(1) int64_nth by blast
  obtain y where y: "ys ! i = I64 y" using True assms(2) int64_nth by blast
  have a: "a = of_int x" using assms(3) by (simp add: x)
  have b: "b = of_int y" using assms(4) by (simp add: y)
  have "(of_int (- (2 ^ 63)) :: real) \<le> of_int (x * y)" using assms(5) by (simp add: a b)
  then have lo: "- (2 ^ 63) \<le> x * y" by (simp only: of_int_le_iff)
  have "(of_int (x * y) :: real) < of_int (2 ^ 63)" using assms(6) by (simp add: a b)
  then have hi: "x * y < 2 ^ 63" by (simp only: of_int_less_iff)
  have "cmul xs ys ! i = I64 (wrap64 (x * y))"
    using True assms(1,2) by (simp add: cmul_def x y)
  then show ?thesis by (simp add: wrap64_id[OF lo hi] a b)
next
  case False
  then have "cmul xs ys ! i = Num (fmul (num_of (xs ! i)) (num_of (ys ! i)))"
    using assms(1,2) by (auto simp: cmul_def)
  then show ?thesis by (simp add: assms(3,4))
qed

lemma coerced_column:
  assumes "coerced df" and "c \<in> set numeric_cols"
  shows "length (column df c) = nrows df"
  using coerced_col[OF assms] by (auto simp: column_def)

lemma column_nth:
  assumes "coerced df" and "c \<in> set numeric_cols" and "i < nrows df"
  shows "num_of (column df c ! i) = nums df c ! i"
proof -
  have "i < length (column df c)" using assms by (simp add: coerced_column)
  then have "map num_of (column df c) ! i = num_of (column df c ! i)" by simp
  then show ?thesis by (simp add: column_nums)
qed

lemma coerced_int_table:
  "length names = n \<Longrightarrow> length envs = n \<Longrightarrow> length invs = n \<Longrightarrow> length dur = n \<Longrightarrow>
   length mem = n \<Longrightarrow> length cold = n \<Longrightarrow> length prov = n \<Longrightarrow> length gbs = n \<Longrightarrow>
   length dt = n \<Longrightarrow> length cost = n \<Longrightarrow>
   coerced (int_table names envs invs dur mem cold prov gbs dt cost)"
  by (simp add: coerced_def rect_def nrows_def int_table_def numeric_cols_def list_all_iff)

text \<open>
  C3, as amended. On a coerced table, the forecasting view adds a column ForecastedCost
  over the full table (one value for each row, every other column as it was). In a row
  whose InvocationsPerMonth, AvgDurationMs, MemoryMB and DataTransferGB are the finite
  numbers \<open>a\<close>, \<open>d\<close>, \<open>m\<close>, \<open>t\<close>, with the products \<open>a * d\<close> and
  \<open>a * d * m\<close> in the range of int64, the value is
  \<open>a * d * m * 0.00000000012 + t * 0.09\<close>; for 1000000, 100, 128 and 0 it is 1.536.
\<close>

theorem forecast_formula_in_range:
  assumes "coerced df" and "i < nrows df"
    and "nums df ''InvocationsPerMonth'' ! i = Fin a"
    and "nums df ''AvgDurationMs'' ! i = Fin d"
    and "nums df ''MemoryMB'' ! i = Fin m"
    and "nums df ''DataTransferGB'' ! i = Fin t"
    and "- (2 ^ 63) \<le> a * d" and "a * d < 2 ^ 63"
    and "- (2 ^ 63) \<le> a * d * m" and "a * d * m < 2 ^ 63"
  shows "length (nums (cost_forecasting df) ''ForecastedCost'') = nrows df \<and>
         nums (cost_forecasting df) ''ForecastedCost'' ! i
           = Fin (a * d * m * 0.00000000012 + t * 0.09) \<and>
         (a = 1000000 \<and> d = 100 \<and> m = 128 \<and> t = 0 \<longrightarrow>
            nums (cost_forecasting df) ''ForecastedCost'' ! i = Fin 1.536) \<and>
         (\<forall>k. k \<noteq> ''ForecastedCost'' \<longrightarrow> map_of (cost_forecasting df) k = map_of df k)"
proof -
  let ?inv = "column df ''InvocationsPerMonth''" and ?dur = "column df ''AvgDurationMs''"
  let ?mem = "column df ''MemoryMB''"
  have l: "length ?inv = nrows df" "length ?dur = nrows df" "length ?mem = nrows df"
    "length (nums df ''DataTransferGB'') = nrows df"
    using assms(1) by (simp_all add: coerced_column coerced_length numeric_cols_def)
  have v: "num_of (?inv ! i) = Fin a" "num_of (?dur ! i) = Fin d" "num_of (?mem ! i) = Fin m"
    using assms(1-5) by (simp_all add: column_nth numeric_cols_def)
  have p1: "num_of (cmul ?inv ?dur ! i) = Fin (a * d)"
    by (rule cmul_nth) (use assms(2,7,8) l v in simp_all)
  have p2: "num_of (cmul (cmul ?inv ?dur) ?mem ! i) = Fin (a * d * m)"
    by (rule cmul_nth) (use assms(2,9,10) l v p1 in \<open>simp_all add: length_cmul\<close>)
  have len: "length (forecasted_cost df) = nrows df"
    by (simp add: forecasted_cost_def vadd_def smul_def length_cmul l)
  have val: "forecasted_cost df ! i = Fin (a * d * m * 0.00000000012 + t * 0.09)"
    using assms(2,6) p2 by (simp add: forecasted_cost_def vadd_def smul_def length_cmul l)
  have n: "nums (cost_forecasting df) ''ForecastedCost'' = forecasted_cost df"
    by (simp add: cost_forecasting_def nums_set_nums)
  have e: "a = 1000000 \<and> d = 100 \<and> m = 128 \<and> t = 0 \<longrightarrow> forecasted_cost df ! i = Fin 1.536"
    using val by simp
  have k: "\<forall>k. k \<noteq> ''ForecastedCost'' \<longrightarrow> map_of (cost_forecasting df) k = map_of df k"
    by (simp add: cost_forecasting_def map_of_set_nums)
  show ?thesis using n len val e k by simp
qed

theorem forecast_formula_in_range_witness:
  "nums (cost_forecasting
     (int_table [''api'', ''etl''] [''prod'', ''dev''] [1000000, 10] [100, 20] [128, 512] [1, 2]
        [0, 1] [3, 4] [0, 100] [2, 9])) ''ForecastedCost'' ! 0 = Fin 1.536"
proof -
  let ?df = "int_table [''api'', ''etl''] [''prod'', ''dev''] [1000000, 10] [100, 20] [128, 512]
        [1, 2] [0, 1] [3, 4] [0, 100] [2, 9]"
  have c: "coerced ?df" by (rule coerced_int_table[of _ 2]) simp_all
  have r: "0 < nrows ?df" by (simp add: nrows_def int_table_def)
  have h: "nums ?df ''InvocationsPerMonth'' ! 0 = Fin 1000000"
    "nums ?df ''AvgDurationMs'' ! 0 = Fin 100"
    "nums ?df ''MemoryMB'' ! 0 = Fin 128"
    "nums ?df ''DataTransferGB'' ! 0 = Fin 0"
    by (simp_all add: nums_def int_table_def)
  have b: "- (2 ^ 63) \<le> (1000000::real) * 100" "(1000000::real) * 100 < 2 ^ 63"
    "- (2 ^ 63) \<le> (1000000::real) * 100 * 128" "(1000000::real) * 100 * 128 < 2 ^ 63"
    by simp_all
  from forecast_formula_in_range[OF c r h b] show ?thesis by simp
qed

text \<open>
  Without the bound the formula fails: the three factors are int64 columns when the file
  holds integers, and their product wraps around. For 5000000000 invocations of 900000 ms
  at 10240 MB the product 46080000000000000000 wraps to 9186511852580896768, and the
  forecast is that number times 0.00000000012, not 5529600000.
\<close>

theorem forecast_formula_counterexample:
  "coerced (int_table [''big''] [''prod''] [5000000000] [900000] [10240] [1] [0] [1] [0] [1]) \<and>
   nums (int_table [''big''] [''prod''] [5000000000] [900000] [10240] [1] [0] [1] [0] [1])
     ''InvocationsPerMonth'' ! 0 = Fin 5000000000 \<and>
   nums (int_table [''big''] [''prod''] [5000000000] [900000] [10240] [1] [0] [1] [0] [1])
     ''AvgDurationMs'' ! 0 = Fin 900000 \<and>
   nums (int_table [''big''] [''prod''] [5000000000] [900000] [10240] [1] [0] [1] [0] [1])
     ''MemoryMB'' ! 0 = Fin 10240 \<and>
   nums (int_table [''big''] [''prod''] [5000000000] [900000] [10240] [1] [0] [1] [0] [1])
     ''DataTransferGB'' ! 0 = Fin 0 \<and>
   nums (cost_forecasting
      (int_table [''big''] [''prod''] [5000000000] [900000] [10240] [1] [0] [1] [0] [1]))
     ''ForecastedCost'' ! 0 = Fin (9186511852580896768 * 0.00000000012) \<and>
   Fin (9186511852580896768 * 0.00000000012)
     \<noteq> Fin (5000000000 * 900000 * 10240 * 0.00000000012 + 0 * 0.09)"
proof -
  let ?df = "int_table [''big''] [''prod''] [5000000000] [900000] [10240] [1] [0] [1] [0] [1]"
  have c: "coerced ?df" by (rule coerced_int_table[of _ 1]) simp_all
  have f: "forecasted_cost ?df = [Fin (9186511852580896768 * 0.00000000012)]"
    by (simp add: forecasted_cost_def vadd_def smul_def cmul_def int64_def wrap64_def
        column_def nums_def int_table_def)
  have n: "nums (cost_forecasting ?df) ''ForecastedCost'' = forecasted_cost ?df"
    by (simp add: cost_forecasting_def nums_set_nums)
  have v: "nums ?df ''InvocationsPerMonth'' ! 0 = Fin 5000000000"
    "nums ?df ''AvgDurationMs'' ! 0 = Fin 900000"
    "nums ?df ''MemoryMB'' ! 0 = Fin 10240"
    "nums ?df ''DataTransferGB'' ! 0 = Fin 0"
    by (simp_all add: nums_def int_table_def)
  show ?thesis using c v by (simp add: n f)
qed

section \<open>Missing values and the rows of the views\<close>

lemma top_80_col:
  assumes "k \<noteq> ''CostPercent''" and "k \<noteq> ''CumulativeCost''" and "map_of df k = Some col"
  shows "map_of (top_80 df) k = Some (map ((!) col) (top_80_rows df))"
  by (simp add: top_80_def map_of_select df_sorted_col[OF assms(1,2)] assms(3) pick_map
      top_80_rows_def)

text \<open>
  C7. On a coerced table, each of the five filtering views puts out, in every column it
  takes from the table, exactly the cells of the rows it keeps, and a row in which a field
  compared by the view's filter is missing (NaN) is not among those rows: CostUSD for the
  cost-concentration view \<open>top_80\<close>, AvgDurationMs and MemoryMB for
  \<open>right_sizing\<close> and for \<open>containers\<close>, ProvisionedConcurrency for \<open>pc\<close>,
  InvocationsPerMonth and CostUSD for \<open>low_value\<close>.
\<close>

theorem missing_value_excludes_row:
  assumes "coerced df" and "i < nrows df"
  shows "(\<forall>k col. k \<noteq> ''CostPercent'' \<and> k \<noteq> ''CumulativeCost'' \<and> map_of df k = Some col \<longrightarrow>
            map_of (top_80 df) k = Some (map ((!) col) (top_80_rows df))) \<and>
         (nums df ''CostUSD'' ! i = NaN \<longrightarrow> i \<notin> set (top_80_rows df)) \<and>
         (\<forall>k col. k \<noteq> ''EstimatedSavings'' \<and> map_of df k = Some col \<longrightarrow>
            map_of (right_sizing df) k = Some (map ((!) col) (kept (right_sizing_mask df)))) \<and>
         (nums df ''AvgDurationMs'' ! i = NaN \<or> nums df ''MemoryMB'' ! i = NaN \<longrightarrow>
            i \<notin> set (kept (right_sizing_mask df))) \<and>
         (\<forall>k col. k \<noteq> ''Recommendation'' \<and> map_of df k = Some col \<longrightarrow>
            map_of (pc df) k = Some (map ((!) col) (kept (pc_mask df)))) \<and>
         (nums df ''ProvisionedConcurrency'' ! i = NaN \<longrightarrow> i \<notin> set (kept (pc_mask df))) \<and>
         (\<forall>k col. map_of df k = Some col \<longrightarrow>
            map_of (low_value df) k = Some (map ((!) col) (kept (low_value_mask df)))) \<and>
         (nums df ''InvocationsPerMonth'' ! i = NaN \<or> nums df ''CostUSD'' ! i = NaN \<longrightarrow>
            i \<notin> set (kept (low_value_mask df))) \<and>
         (\<forall>k col. map_of df k = Some col \<longrightarrow>
            map_of (containers df) k = Some (map ((!) col) (kept (containers_mask df)))) \<and>
         (nums df ''AvgDurationMs'' ! i = NaN \<or> nums df ''MemoryMB'' ! i = NaN \<longrightarrow>
            i \<notin> set (kept (containers_mask df)))"
proof -
  have rc: "rect df" using assms(1) by (simp add: coerced_def)
  have t1: "\<forall>k col. k \<noteq> ''CostPercent'' \<and> k \<noteq> ''CumulativeCost'' \<and> map_of df k = Some col \<longrightarrow>
            map_of (top_80 df) k = Some (map ((!) col) (top_80_rows df))"
    by (simp add: top_80_col)
  have t2: "nums df ''CostUSD'' ! i = NaN \<longrightarrow> i \<notin> set (top_80_rows df)"
    using top_80_rows_missing[of i df] by blast
  have r1: "\<forall>k col. k \<noteq> ''EstimatedSavings'' \<and> map_of df k = Some col \<longrightarrow>
            map_of (right_sizing df) k = Some (map ((!) col) (kept (right_sizing_mask df)))"
    by (simp add: right_sizing_def Let_def map_of_set_nums
        select_col[OF rc _ right_sizing_mask_nth(1)[OF assms(1)]])
  have r2: "nums df ''AvgDurationMs'' ! i = NaN \<or> nums df ''MemoryMB'' ! i = NaN \<longrightarrow>
            i \<notin> set (kept (right_sizing_mask df))"
    using assms(2) by (auto simp: kept_member right_sizing_mask_nth[OF assms(1)])
  have p1: "\<forall>k col. k \<noteq> ''Recommendation'' \<and> map_of df k = Some col \<longrightarrow>
            map_of (pc df) k = Some (map ((!) col) (kept (pc_mask df)))"
    by (simp add: pc_def Let_def map_of_set_col select_col[OF rc _ pc_mask_nth(1)[OF assms(1)]])
  have p2: "nums df ''ProvisionedConcurrency'' ! i = NaN \<longrightarrow> i \<notin> set (kept (pc_mask df))"
    using assms(2) by (auto simp: kept_member pc_mask_nth[OF assms(1)])
  have l1: "\<forall>k col. map_of df k = Some col \<longrightarrow>
            map_of (low_value df) k = Some (map ((!) col) (kept (low_value_mask df)))"
    by (simp add: low_value_def select_col[OF rc _ low_value_mask_nth(1)[OF assms(1)]])
  have l2: "nums df ''InvocationsPerMonth'' ! i = NaN \<or> nums df ''CostUSD'' ! i = NaN \<longrightarrow>
            i \<notin> set (kept (low_value_mask df))"
    using assms(2) by (auto simp: kept_member low_value_mask_nth[OF assms(1)])
  have c1: "\<forall>k col. map_of df k = Some col \<longrightarrow>
            map_of (containers df) k = Some (map ((!) col) (kept (containers_mask df)))"
    by (simp add: containers_def select_col[OF rc _ containers_mask_nth(1)[OF assms(1)]])
  have c2: "nums df ''AvgDurationMs'' ! i = NaN \<or> nums df ''MemoryMB'' ! i = NaN \<longrightarrow>
            i \<notin> set (kept (containers_mask df))"
    using assms(2) by (auto simp: kept_member containers_mask_nth[OF assms(1)])
  show ?thesis
    by (intro conjI) (rule t1 t2 r1 r2 p1 p2 l1 l2 c1 c2)+
qed

theorem missing_value_excludes_row_witness:
  "map_of (top_80 (table [''a'', ''b'', ''c''] [''p'', ''p'', ''d''] [Fin 10, NaN, Fin 1000]
       [Fin 500, NaN, Fin 5000] [Fin 2048, Fin 4096, Fin 4096] [Fin 5, Fin 2, Fin 15]
       [Fin 5, NaN, Fin 5] [Fin 1, Fin 1, Fin 1] [Fin 0, Fin 0, Fin 0] [Fin 40, NaN, Fin 10]))
     ''FunctionName'' = Some [Str ''a''] \<and>
   map_of (right_sizing (table [''a'', ''b'', ''c''] [''p'', ''p'', ''d''] [Fin 10, NaN, Fin 1000]
       [Fin 500, NaN, Fin 5000] [Fin 2048, Fin 4096, Fin 4096] [Fin 5, Fin 2, Fin 15]
       [Fin 5, NaN, Fin 5] [Fin 1, Fin 1, Fin 1] [Fin 0, Fin 0, Fin 0] [Fin 40, NaN, Fin 10]))
     ''FunctionName'' = Some [Str ''a''] \<and>
   map_of (pc (table [''a'', ''b'', ''c''] [''p'', ''p'', ''d''] [Fin 10, NaN, Fin 1000]
       [Fin 500, NaN, Fin 5000] [Fin 2048, Fin 4096, Fin 4096] [Fin 5, Fin 2, Fin 15]
       [Fin 5, NaN, Fin 5] [Fin 1, Fin 1, Fin 1] [Fin 0, Fin 0, Fin 0] [Fin 40, NaN, Fin 10]))
     ''FunctionName'' = Some [Str ''a'', Str ''c''] \<and>
   map_of (low_value (table [''a'', ''b'', ''c''] [''p'', ''p'', ''d''] [Fin 10, NaN, Fin 1000]
       [Fin 500, NaN, Fin 5000] [Fin 2048, Fin 4096, Fin 4096] [Fin 5, Fin 2, Fin 15]
       [Fin 5, NaN, Fin 5] [Fin 1, Fin 1, Fin 1] [Fin 0, Fin 0, Fin 0] [Fin 40, NaN, Fin 10]))
     ''FunctionName'' = Some [Str ''a''] \<and>
   map_of (containers (table [''a'', ''b'', ''c''] [''p'', ''p'', ''d''] [Fin 10, NaN, Fin 1000]
       [Fin 500, NaN, Fin 5000] [Fin 2048, Fin 4096, Fin 4096] [Fin 5, Fin 2, Fin 15]
       [Fin 5, NaN, Fin 5] [Fin 1, Fin 1, Fin 1] [Fin 0, Fin 0, Fin 0] [Fin 40, NaN, Fin 10]))
     ''FunctionName'' = Some [Str ''c'']"
proof -
  let ?df = "table [''a'', ''b'', ''c''] [''p'', ''p'', ''d''] [Fin 10, NaN, Fin 1000]
       [Fin 500, NaN, Fin 5000] [Fin 2048, Fin 4096, Fin 4096] [Fin 5, Fin 2, Fin 15]
       [Fin 5, NaN, Fin 5] [Fin 1, Fin 1, Fin 1] [Fin 0, Fin 0, Fin 0] [Fin 40, NaN, Fin 10]"
  have c: "coerced ?df" by (rule coerced_table[of _ 3]) simp_all
  have r: "1 < nrows ?df" by (simp add: nrows_def table_def)
  have f: "map_of ?df ''FunctionName'' = Some [Str ''a'', Str ''b'', Str ''c'']"
    by (simp add: table_def)
  note m = missing_value_excludes_row[OF c r]
  have u3: "[0..<3] = [0, 1, 2]" by code_simp
  have t: "top_80_rows ?df = [0]"
    by (simp add: top_80_rows_def top_80_mask_def df_sorted_def Let_def nums_def column_def
        table_def set_nums_def set_col_def sort_values_desc_def take_rows_def argsort_desc_def
        goes_before_def total_cost_def ssum_def int64_def cumsum_def pick_def u3)
  have rs: "kept (right_sizing_mask ?df) = [0]"
    by (simp add: kept_def pick_def right_sizing_mask_def nums_def table_def fgt_def u3)
  have p: "kept (pc_mask ?df) = [0, 2]"
    by (simp add: kept_def pick_def pc_mask_def nums_def table_def fgt_def u3)
  have l: "kept (low_value_mask ?df) = [0]"
    by (simp add: kept_def pick_def low_value_mask_def inv_threshold_def fmean_def ssum_def
        int64_def nums_def column_def table_def fgt_def u3)
  have k: "kept (containers_mask ?df) = [2]"
    by (simp add: kept_def pick_def containers_mask_def nums_def table_def fgt_def u3)
  have "map_of (top_80 ?df) ''FunctionName'' = Some [Str ''a'']"
    using m f by (simp add: t)
  moreover have "map_of (right_sizing ?df) ''FunctionName'' = Some [Str ''a'']"
    using m f by (simp add: rs)
  moreover have "map_of (pc ?df) ''FunctionName'' = Some [Str ''a'', Str ''c'']"
    using m f by (simp add: p)
  moreover have "map_of (low_value ?df) ''FunctionName'' = Some [Str ''a'']"
    using m f by (simp add: l)
  moreover have "map_of (containers ?df) ''FunctionName'' = Some [Str ''c'']"
    using m f by (simp add: k)
  ultimately show ?thesis by blast
qed

section \<open>Cost concentration\<close>

lemma fsum_Fin: "fsum (map Fin cs) = Fin (sum_list cs)"
  by (induction cs) auto

lemma int64_num_of: "int64 col \<Longrightarrow> map num_of col = map (\<lambda>x. Fin (of_int (int_of x))) col"
proof (induction col)
  case Nil
  then show ?case by simp
next
  case (Cons x col)
  then show ?case by (cases x) (simp_all add: int64_def)
qed

lemma of_int_sum_list: "(of_int (sum_list xs) :: real) = sum_list (map of_int xs)"
  by (induction xs) auto

lemma ssum_Fin:
  assumes "map num_of col = map Fin cs" and "0 \<le> sum_list cs" and "sum_list cs < 2 ^ 63"
  shows "ssum col = Fin (sum_list cs)"
proof (cases "int64 col")
  case True
  have "map Fin cs = map Fin (map (\<lambda>x. of_int (int_of x)) col)"
    using int64_num_of[OF True] assms(1) by (simp add: o_def)
  moreover have "inj Fin" by (simp add: inj_def)
  ultimately have cs: "cs = map (\<lambda>x. of_int (int_of x)) col"
    by (simp only: inj_map_eq_map)
  have s: "sum_list cs = of_int (sum_list (map int_of col))"
    by (simp add: cs of_int_sum_list o_def)
  have "(of_int 0 :: real) \<le> of_int (sum_list (map int_of col))" using assms(2) s by simp
  then have lo: "0 \<le> sum_list (map int_of col)" by (simp only: of_int_le_iff)
  have "(of_int (sum_list (map int_of col)) :: real) < of_int (2 ^ 63)" using assms(3) s by simp
  then have hi: "sum_list (map int_of col) < 2 ^ 63" by (simp only: of_int_less_iff)
  have "wrap64 (sum_list (map int_of col)) = sum_list (map int_of col)"
    using lo hi by (simp add: wrap64_id)
  then show ?thesis using True by (simp add: ssum_def s)
next
  case False
  then show ?thesis by (simp add: ssum_def assms(1) fsum_Fin)
qed




lemma pick_all_False: "pick (replicate k False) xs = []"
  by (auto simp: pick_def filter_empty_conv dest: set_zip_leftD)

lemma pick_prefix: "pick (replicate m True @ replicate k False) xs = take m xs"
proof (induction m arbitrary: xs)
  case 0
  then show ?case by (simp add: pick_all_False)
next
  case (Suc m)
  show ?case
  proof (cases xs)
    case Nil
    then show ?thesis by (simp add: pick_def)
  next
    case (Cons x xs')
    have "pick (replicate (Suc m) True @ replicate k False) (x # xs')
        = x # pick (replicate m True @ replicate k False) xs'"
      by (simp add: pick_def)
    then show ?thesis using Suc Cons by simp
  qed
qed

lemma select_prefix:
  "select (replicate m True @ replicate k False) df = map (\<lambda>(c, col). (c, take m col)) df"
  by (simp add: select_def pick_prefix)







section \<open>A total cost of zero\<close>

lemma cumsum_from_all_NaN: "cumsum_from a (replicate n NaN) = replicate n NaN"
  by (induction n) auto

lemma all_eq_replicate: "\<forall>x\<in>set xs. x = c \<Longrightarrow> xs = replicate (length xs) c"
  by (induction xs) auto

text \<open>
  C10. On a coerced table in which every CostUSD is zero, the total is zero and the
  cost-concentration view returns without an error: the division gives NaN for the
  CostPercent of every row, CumulativeCost is NaN as well, the comparison with 80 is false
  in every row, and \<open>top_80\<close> has the columns of the sorted table with no row in them.
\<close>

theorem zero_total_cost:
  assumes "coerced df" and "\<forall>c\<in>set (nums df ''CostUSD''). c = Fin 0"
  shows "total_cost df = Fin 0 \<and>
         nums (df_sorted df) ''CostPercent'' = replicate (nrows df) NaN \<and>
         nums (df_sorted df) ''CumulativeCost'' = replicate (nrows df) NaN \<and>
         top_80_mask df = replicate (nrows df) False \<and>
         top_80 df = map (\<lambda>(c, col). (c, [])) (df_sorted df) \<and>
         top_80_rows df = []"
proof -
  let ?ks = "nums df ''CostUSD''"
  have n: "length ?ks = nrows df" using assms(1) by (simp add: coerced_length numeric_cols_def)
  have ks: "?ks = map Fin (replicate (nrows df) 0)"
    using all_eq_replicate[OF assms(2)] by (simp add: n)
  have "map num_of (column df ''CostUSD'') = map Fin (replicate (nrows df) 0)"
    using ks by (simp only: column_nums)
  then have "ssum (column df ''CostUSD'') = Fin (sum_list (replicate (nrows df) 0))"
    by (rule ssum_Fin) (simp_all add: sum_list_replicate)
  then have tc: "total_cost df = Fin 0" by (simp add: total_cost_def sum_list_replicate)
  have "\<forall>x\<in>set (nums (df_sorted df) ''CostUSD''). x = Fin 0"
    using assms(2) by (auto simp: df_sorted_nums(1) set_argsort)
  from all_eq_replicate[OF this]
  have sc: "nums (df_sorted df) ''CostUSD'' = replicate (nrows df) (Fin 0)"
    by (simp add: df_sorted_nums(1) length_argsort n)
  have pc: "nums (df_sorted df) ''CostPercent'' = replicate (nrows df) NaN"
    by (simp add: df_sorted_nums(2) sc tc)
  have cc: "nums (df_sorted df) ''CumulativeCost'' = replicate (nrows df) NaN"
    by (simp add: df_sorted_nums(3) pc cumsum_def cumsum_from_all_NaN)
  have m: "top_80_mask df = replicate (nrows df) False"
    by (simp add: top_80_mask_def cc)
  have "top_80 df = select (replicate 0 True @ replicate (nrows df) False) (df_sorted df)"
    by (simp add: top_80_def m)
  then have t: "top_80 df = map (\<lambda>(c, col). (c, [])) (df_sorted df)"
    by (simp only: select_prefix) simp
  have r: "top_80_rows df = []" by (simp add: top_80_rows_def m pick_all_False)
  show ?thesis using tc pc cc m t r by simp
qed

theorem zero_total_cost_witness:
  "top_80 (int_table [''a'', ''b''] [''p'', ''p''] [1, 2] [3, 4] [5, 6] [7, 8] [9, 1] [2, 3] [4, 5]
       [0, 0])
   = map (\<lambda>c. (c, [])) (schema @ [''CostPercent'', ''CumulativeCost'']) \<and>
   nums (df_sorted (int_table [''a'', ''b''] [''p'', ''p''] [1, 2] [3, 4] [5, 6] [7, 8] [9, 1]
       [2, 3] [4, 5] [0, 0])) ''CostPercent'' = [NaN, NaN]"
proof -
  let ?df = "int_table [''a'', ''b''] [''p'', ''p''] [1, 2] [3, 4] [5, 6] [7, 8] [9, 1] [2, 3]
       [4, 5] [0, 0]"
  have c: "coerced ?df" by (rule coerced_int_table[of _ 2]) simp_all
  have z: "\<forall>c\<in>set (nums ?df ''CostUSD''). c = Fin 0" by (simp add: nums_def int_table_def)
  have n: "nrows ?df = 2" by (simp add: nrows_def int_table_def)
  have k: "map fst (df_sorted ?df) = schema @ [''CostPercent'', ''CumulativeCost'']"
    by (simp add: df_sorted_def Let_def sort_values_desc_def take_rows_def set_nums_def
        set_col_def int_table_def schema_def)
  have "top_80 ?df = map (\<lambda>(c, col). (c, [])) (df_sorted ?df)"
    using zero_total_cost[OF c z] by blast
  also have "\<dots> = map (\<lambda>c. (c, [])) (map fst (df_sorted ?df))"
    by (simp add: split_def o_def)
  finally have t: "top_80 ?df = map (\<lambda>c. (c, [])) (schema @ [''CostPercent'', ''CumulativeCost''])"
    by (simp only: k)
  have "nums (df_sorted ?df) ''CostPercent'' = replicate (nrows ?df) NaN"
    using zero_total_cost[OF c z] by blast
  then have "nums (df_sorted ?df) ''CostPercent'' = [NaN, NaN]"
    by (simp add: n numeral_2_eq_2)
  with t show ?thesis by blast
qed

section \<open>Loading and repair of the table\<close>




lemma length_str_split_expand:
  "str_split_expand col = Inr cols \<Longrightarrow> length cols = width col"
  by (auto simp: str_split_expand_def split: if_splits)




section \<open>Failures of the pipeline\<close>

lemma coerce_cols_total:
  "\<forall>c\<in>set cs. map_of df c \<noteq> None \<Longrightarrow> \<exists>df'. coerce_cols p cs df = Inr df'"
proof (induction cs arbitrary: df)
  case Nil
  then show ?case by simp
next
  case (Cons c cs)
  then obtain col where c: "map_of df c = Some col" by auto
  have "\<forall>k\<in>set cs. map_of (set_col c (to_numeric p col) df) k \<noteq> None"
    using Cons.prems by (simp add: map_of_set_col)
  from Cons.IH[OF this] show ?case by (simp add: c)
qed

lemma coerce_cols_error:
  "coerce_cols p cs df = Inl e \<Longrightarrow> \<exists>c\<in>set cs. map_of df c = None \<and> e = KeyError c"
proof (induction cs arbitrary: df)
  case Nil
  then show ?case by simp
next
  case (Cons c cs)
  show ?case
  proof (cases "map_of df c")
    case None
    then show ?thesis using Cons.prems by simp
  next
    case (Some col)
    then have "coerce_cols p cs (set_col c (to_numeric p col) df) = Inl e"
      using Cons.prems by simp
    from Cons.IH[OF this] obtain k where k: "k \<in> set cs"
      "map_of (set_col c (to_numeric p col) df) k = None" "e = KeyError k" by blast
    then have "map_of df k = None" by (simp add: map_of_set_col split: if_splits)
    then show ?thesis using k by auto
  qed
qed

lemma repair_error:
  "repair temp = Inl e \<longleftrightarrow>
     (temp = [] \<and> e = KeyError ''0'') \<or>
     (\<exists>col0 rest. temp = col0 # rest \<and>
        (if list_all is_num col0 then e = AttributeError
         else width col0 \<noteq> 10 \<and> e = LengthMismatch (width col0) 10))"
  by (cases temp) (auto simp: repair_def str_split_expand_def set_columns_def schema_def)

lemma pipeline_parse_failure:
  "pipeline rd rdn p (Some f) = ParseFailure e \<longleftrightarrow>
     rd f = Inl e \<or>
     (\<exists>df. rd f = Inr df \<and> length df = 1 \<and>
        (rdn f = Inl e \<or> (\<exists>temp. rdn f = Inr temp \<and> repair temp = Inl e)))"
  by (auto simp: pipeline_def load_csv_def split: sum.splits if_splits)

lemma pipeline_rendered:
  "(\<exists>s. pipeline rd rdn p (Some f) = Rendered s) \<longleftrightarrow>
     (\<exists>df0. load_csv rd rdn f = Inr df0 \<and> (\<forall>c\<in>set numeric_cols. map_of df0 c \<noteq> None) \<and>
        map_of df0 ''FunctionName'' \<noteq> None)"
proof
  assume "\<exists>s. pipeline rd rdn p (Some f) = Rendered s"
  then obtain df0 df where l: "load_csv rd rdn f = Inr df0"
    and c: "coerce_cols p numeric_cols df0 = Inr df" and n: "map_of df ''FunctionName'' \<noteq> None"
    by (auto simp: pipeline_def split: sum.splits if_splits)
  have "\<forall>c\<in>set numeric_cols. map_of df0 c \<noteq> None"
    using coerce_cols_ok[OF c] by auto
  moreover have "map_of df0 ''FunctionName'' \<noteq> None"
    using coerce_cols_result[OF c, of "''FunctionName''"] n by (simp add: numeric_cols_def)
  ultimately show "\<exists>df0. load_csv rd rdn f = Inr df0 \<and>
      (\<forall>c\<in>set numeric_cols. map_of df0 c \<noteq> None) \<and> map_of df0 ''FunctionName'' \<noteq> None"
    using l by blast
next
  assume "\<exists>df0. load_csv rd rdn f = Inr df0 \<and> (\<forall>c\<in>set numeric_cols. map_of df0 c \<noteq> None) \<and>
        map_of df0 ''FunctionName'' \<noteq> None"
  then obtain df0 where l: "load_csv rd rdn f = Inr df0"
    and a: "\<forall>c\<in>set numeric_cols. map_of df0 c \<noteq> None" and n: "map_of df0 ''FunctionName'' \<noteq> None"
    by blast
  from coerce_cols_total[OF a] obtain df where c: "coerce_cols p numeric_cols df0 = Inr df" by blast
  have "map_of df ''FunctionName'' \<noteq> None"
    using coerce_cols_result[OF c, of "''FunctionName''"] n by (simp add: numeric_cols_def)
  then show "\<exists>s. pipeline rd rdn p (Some f) = Rendered s"
    by (simp add: pipeline_def l c)
qed

lemma pipeline_uncaught:
  assumes "pipeline rd rdn p (Some f) = Uncaught e"
  shows "\<exists>df0 c. load_csv rd rdn f = Inr df0 \<and> c \<in> set (numeric_cols @ [''FunctionName'']) \<and>
           map_of df0 c = None \<and> e = KeyError c"
proof -
  from assms obtain df0 where l: "load_csv rd rdn f = Inr df0"
    by (auto simp: pipeline_def split: sum.splits)
  show ?thesis
  proof (cases "coerce_cols p numeric_cols df0")
    case (Inl x)
    then have "e = x" using assms l by (simp add: pipeline_def)
    with coerce_cols_error[OF Inl] l show ?thesis by auto
  next
    case (Inr df)
    then have n: "map_of df ''FunctionName'' = None" and e: "e = KeyError ''FunctionName''"
      using assms l by (auto simp: pipeline_def split: if_splits)
    have "map_of df0 ''FunctionName'' = None"
      using coerce_cols_result[OF Inr, of "''FunctionName''"] n by (simp add: numeric_cols_def)
    with e l show ?thesis by auto
  qed
qed

text \<open>
  C9, as amended. With a file uploaded, the pipeline reports a parse failure, carrying the
  exception and no view, exactly when an exception is raised inside the guarded block: by
  the first read, or, when that read has exactly one column, by the second read or by the
  repair (no column 0, the string accessor on a column without strings, or the renaming of
  a split that is not ten columns wide). It computes the views exactly when the guarded
  block gives a table that has the eight numeric columns and FunctionName, whatever the
  cells hold and whatever the number parser does with them; any other failure is a
  KeyError, outside the guard, for one of those nine columns that the table lacks. A
  string that does not parse as a number is no error: the cell becomes missing.
\<close>

theorem pipeline_failures:
  "(pipeline rd rdn p (Some f) = ParseFailure e \<longleftrightarrow>
      rd f = Inl e \<or>
      (\<exists>df. rd f = Inr df \<and> length df = 1 \<and>
         (rdn f = Inl e \<or> (\<exists>temp. rdn f = Inr temp \<and> repair temp = Inl e)))) \<and>
   (repair temp = Inl e \<longleftrightarrow>
      (temp = [] \<and> e = KeyError ''0'') \<or>
      (\<exists>col0 rest. temp = col0 # rest \<and>
         (if list_all is_num col0 then e = AttributeError
          else width col0 \<noteq> 10 \<and> e = LengthMismatch (width col0) 10))) \<and>
   ((\<exists>s. pipeline rd rdn p (Some f) = Rendered s) \<longleftrightarrow>
      (\<exists>df0. load_csv rd rdn f = Inr df0 \<and> (\<forall>c\<in>set numeric_cols. map_of df0 c \<noteq> None) \<and>
         map_of df0 ''FunctionName'' \<noteq> None)) \<and>
   (pipeline rd rdn p (Some f) = Uncaught e \<longrightarrow>
      (\<exists>df0 c. load_csv rd rdn f = Inr df0 \<and> c \<in> set (numeric_cols @ [''FunctionName'']) \<and>
         map_of df0 c = None \<and> e = KeyError c)) \<and>
   (p s = None \<longrightarrow> coerce p (Str s) = Num NaN)"
  using pipeline_parse_failure[of rd rdn p f e] repair_error[of temp e]
    pipeline_rendered[of rd rdn p f] pipeline_uncaught[of rd rdn p f e]
  by (intro conjI impI) simp_all

end
